theory Spec2Isabelle
  imports Main "HOL-Library.Product_Lexorder" "HOL-Library.Sublist"
begin

section \<open>The feature store of \<^verbatim>\<open>mcp_server/feature_mcp.py\<close>\<close>

subsection \<open>Data model\<close>

text \<open>
  Modelled from the spec: the ORM class \<^verbatim>\<open>Feature\<close> is imported from \<^verbatim>\<open>api.database\<close>,
  which is not among the sources. Its columns are the ones the tools read and write
  (\<^verbatim>\<open>id\<close>, \<^verbatim>\<open>priority\<close>, \<^verbatim>\<open>category\<close>, \<^verbatim>\<open>name\<close>, \<^verbatim>\<open>description\<close>, \<^verbatim>\<open>steps\<close>, \<^verbatim>\<open>passes\<close>,
  \<^verbatim>\<open>source\<close>, \<^verbatim>\<open>batch_id\<close>). The column \<^verbatim>\<open>id\<close> is called \<open>feature_id\<close> here. Python
  integers are unbounded, hence \<open>int\<close>.
\<close>

record feature =
  feature_id :: int
  priority :: int
  category :: string
  name :: string
  description :: string
  steps :: "string list"
  passes :: bool
  source :: string
  batch_id :: "string option"

text \<open>
  The table is the list of its rows in insertion order. A tool that returns without
  \<^verbatim>\<open>session.commit()\<close> leaves the table as it was: \<^verbatim>\<open>session.close()\<close> in the
  \<^verbatim>\<open>finally\<close> block discards whatever the session held.
\<close>

type_synonym store = "feature list"

text \<open>
  The tools return JSON text; the model returns the value that is serialised. An
  \<^verbatim>\<open>{"error": ...}\<close> payload is a value of \<open>error\<close>:
  \<^item> \<open>NoWork\<close>: "All features are passing! No more work to do."
  \<^item> \<open>NotFound i\<close>: "Feature with ID i not found"
  \<^item> \<open>InvalidState\<close>: "Cannot skip a feature that is already passing"
  \<^item> \<open>MissingFields i\<close>: "Feature at index i missing required fields (...)"
\<close>

datatype error = NoWork | NotFound int | InvalidState | MissingFields nat

subsection \<open>Query building blocks\<close>

text \<open>\<^verbatim>\<open>.first()\<close>: the first row of a result, or \<^verbatim>\<open>None\<close>.\<close>

definition first :: "'a list \<Rightarrow> 'a option" where
  "first xs = (case xs of [] \<Rightarrow> None | x # _ \<Rightarrow> Some x)"

text \<open>\<^verbatim>\<open>session.query(Feature).filter(Feature.id == feature_id).first()\<close>\<close>

definition get_feature :: "store \<Rightarrow> int \<Rightarrow> feature option" where
  "get_feature s i = first (filter (\<lambda>f. feature_id f = i) s)"

text \<open>
  \<^verbatim>\<open>session.query(Feature.priority).order_by(Feature.priority.desc()).first()\<close>:
  descending order is ascending order of the negated key.
\<close>

definition max_priority_result :: "store \<Rightarrow> int option" where
  "max_priority_result s = first (sort_key uminus (map priority s))"

text \<open>
  \<^verbatim>\<open>session.query(Feature.priority).filter(Feature.passes == False)
       .order_by(Feature.priority.asc()).first()\<close>
\<close>

definition min_pending :: "store \<Rightarrow> int option" where
  "min_pending s = first (sort (map priority (filter (\<lambda>f. \<not> passes f) s)))"

text \<open>
  Writing an attribute of a loaded row and committing updates the row with that primary key.
\<close>

definition update_row :: "int \<Rightarrow> (feature \<Rightarrow> feature) \<Rightarrow> store \<Rightarrow> store" where
  "update_row i upd s = map (\<lambda>f. if feature_id f = i then upd f else f) s"

subsection \<open>\<^verbatim>\<open>feature_get_next\<close>\<close>

definition feature_get_next :: "store \<Rightarrow> error + feature" where
  "feature_get_next s =
     (case first (sort_key (\<lambda>f. (priority f, feature_id f)) (filter (\<lambda>f. \<not> passes f) s)) of
        None \<Rightarrow> Inl NoWork
      | Some feature \<Rightarrow> Inr feature)"

subsection \<open>\<^verbatim>\<open>feature_mark_passing\<close>\<close>

text \<open>
  \<^verbatim>\<open>session.refresh(feature)\<close> reloads the object from the row just committed, which
  holds the attribute written; \<^verbatim>\<open>to_dict()\<close> (in \<^verbatim>\<open>api.database\<close>) renders the object's
  columns, so the result is the row itself.
\<close>

definition feature_mark_passing :: "store \<Rightarrow> int \<Rightarrow> (error + feature) \<times> store" where
  "feature_mark_passing s i =
     (case get_feature s i of
        None \<Rightarrow> (Inl (NotFound i), s)
      | Some feature \<Rightarrow>
          (Inr (feature\<lparr>passes := True\<rparr>), update_row i (\<lambda>f. f\<lparr>passes := True\<rparr>) s))"

subsection \<open>\<^verbatim>\<open>feature_skip\<close>\<close>

record skip_result =
  skip_id :: int
  skip_name :: string
  old_priority :: int
  new_priority :: int
  message :: string

definition feature_skip :: "store \<Rightarrow> int \<Rightarrow> (error + skip_result) \<times> store" where
  "feature_skip s i =
     (case get_feature s i of
        None \<Rightarrow> (Inl (NotFound i), s)
      | Some feature \<Rightarrow>
          if passes feature then (Inl InvalidState, s)
          else
            (let old = priority feature;
                 new = (case max_priority_result s of Some m \<Rightarrow> m + 1 | None \<Rightarrow> 1)
             in (Inr \<lparr>skip_id = feature_id feature, skip_name = name feature,
                      old_priority = old, new_priority = new,
                      message = ''Feature '' @ [CHR 0x27] @ name feature @ [CHR 0x27]
                                  @ '' moved to end of queue''\<rparr>,
                 update_row i (\<lambda>f. f\<lparr>priority := new\<rparr>) s)))"

subsection \<open>\<^verbatim>\<open>feature_create_bulk\<close>\<close>

text \<open>
  An element of \<^verbatim>\<open>features\<close> is a dict. The code reads the four keys
  \<^verbatim>\<open>category\<close>, \<^verbatim>\<open>name\<close>, \<^verbatim>\<open>description\<close>, \<^verbatim>\<open>steps\<close> and no other, so the dict is
  modelled by these four entries: \<open>None\<close> when the key is absent, and otherwise a value
  of the type that \<^verbatim>\<open>FeatureCreateItem\<close> declares for it.
\<close>

record feature_data =
  d_category :: "string option"
  d_name :: "string option"
  d_description :: "string option"
  d_steps :: "string list option"

text \<open>
  Modelled from the spec: the primary key is assigned by the store (\<^verbatim>\<open>api.database\<close>,
  not among the sources): identities are unique and monotonic, so a new row gets the
  successor of the largest identity in the table, 1 in an empty table.
\<close>

definition next_id :: "store \<Rightarrow> int" where
  "next_id s = (case first (sort_key uminus (map feature_id s)) of Some m \<Rightarrow> m + 1 | None \<Rightarrow> 1)"

text \<open>
  \<^verbatim>\<open>all(key in feature_data for key in ["category", "name", "description", "steps"])\<close>
  together with the four reads \<^verbatim>\<open>feature_data[key]\<close> that follow it: the four values
  when every key is present, \<open>None\<close> when one is missing.
\<close>

definition required_fields :: "feature_data \<Rightarrow> (string \<times> string \<times> string \<times> string list) option" where
  "required_fields d =
     (case (d_category d, d_name d, d_description d, d_steps d) of
        (Some c, Some n, Some de, Some st) \<Rightarrow> Some (c, n, de, st)
      | _ \<Rightarrow> None)"

text \<open>
  The constructor call \<^verbatim>\<open>Feature(priority=start_priority + i, ..., passes=False,
  source=source, batch_id=batch_id)\<close> for the item at index \<open>i\<close>. The rows are inserted at
  commit in the order of \<^verbatim>\<open>session.add\<close>, so this object gets the identity \<open>nid + i\<close>,
  where \<open>nid\<close> is the next identity of the table.
\<close>

definition db_feature ::
  "int \<Rightarrow> int \<Rightarrow> string \<Rightarrow> string option \<Rightarrow> nat \<Rightarrow> string \<times> string \<times> string \<times> string list
     \<Rightarrow> feature" where
  "db_feature start nid src b i v =
     (case v of (c, n, de, st) \<Rightarrow>
        \<lparr>feature_id = nid + int i, priority = start + int i, category = c,
         name = n, description = de, steps = st, passes = False,
         source = src, batch_id = b\<rparr>)"

text \<open>
  The \<^verbatim>\<open>for i, feature_data in enumerate(features)\<close> loop. \<open>added\<close> are the objects
  handed to \<^verbatim>\<open>session.add\<close> so far. The \<^verbatim>\<open>return\<close> inside the loop leaves the function
  before \<^verbatim>\<open>session.commit()\<close>.
\<close>

fun add_features ::
  "int \<Rightarrow> int \<Rightarrow> string \<Rightarrow> string option \<Rightarrow> nat \<Rightarrow> feature_data list \<Rightarrow> feature list
     \<Rightarrow> error + feature list" where
  "add_features start nid src b i [] added = Inr added"
| "add_features start nid src b i (d # ds) added =
     (case required_fields d of
        None \<Rightarrow> Inl (MissingFields i)
      | Some v \<Rightarrow>
          add_features start nid src b (Suc i) ds (added @ [db_feature start nid src b i v]))"

record bulk_result =
  created :: nat
  priority_mode :: string
  start_priority :: int
  res_source :: string
  res_batch_id :: "string option"

text \<open>The block "Calculate starting priority based on mode"; \<open>n\<close> is \<^verbatim>\<open>len(features)\<close>.\<close>

definition append_start :: "store \<Rightarrow> int" where
  "append_start s = (case max_priority_result s of Some m \<Rightarrow> m + 1 | None \<Rightarrow> 1)"

definition calc_start_priority :: "store \<Rightarrow> string \<Rightarrow> nat \<Rightarrow> int" where
  "calc_start_priority s mode n =
     (if mode = ''prepend'' then
        (case min_pending s of
           Some p \<Rightarrow> p - int n
         | None \<Rightarrow> append_start s)
      else append_start s)"

definition feature_create_bulk ::
  "store \<Rightarrow> feature_data list \<Rightarrow> string \<Rightarrow> string \<Rightarrow> string option
     \<Rightarrow> (error + bulk_result) \<times> store" where
  "feature_create_bulk s features mode src b =
     (let start = calc_start_priority s mode (length features)
      in (case add_features start (next_id s) src b 0 features [] of
            Inl e \<Rightarrow> (Inl e, s)
          | Inr added \<Rightarrow>
              (Inr \<lparr>created = length added, priority_mode = mode, start_priority = start,
                    res_source = src, res_batch_id = b\<rparr>,
               s @ added)))"

subsection \<open>\<^verbatim>\<open>feature_search\<close>\<close>


fun like :: "string \<Rightarrow> string \<Rightarrow> bool" where
  "like [] [] = True"
| "like [] (c # cs) = False"
| "like (p # ps) [] = (p = CHR ''%'' \<and> like ps [])"
| "like (p # ps) (c # cs) =
     (if p = CHR ''%'' then like ps (c # cs) \<or> like (p # ps) cs
      else (p = CHR ''_'' \<or> p = c) \<and> like ps cs)"


record search_hit =
  hit_id :: int
  hit_name :: string
  hit_category :: string
  hit_passes :: bool

record search_result =
  features :: "search_hit list"
  count :: nat





subsection \<open>Sequences of tool calls\<close>

text \<open>
  One constructor per tool, and the effect of a call on the table. The six query tools
  open a session, read and close it: they write no attribute, add no object and never
  commit.
\<close>

datatype tool_call =
    GetStats
  | GetNext
  | GetForRegression nat
  | GetAllCategories
  | GetSummary
  | Search string nat
  | MarkPassing int
  | Skip int
  | CreateBulk "feature_data list" string string "string option"

fun call_tool :: "tool_call \<Rightarrow> store \<Rightarrow> store" where
  "call_tool (MarkPassing i) s = snd (feature_mark_passing s i)"
| "call_tool (Skip i) s = snd (feature_skip s i)"
| "call_tool (CreateBulk fs mode src b) s = snd (feature_create_bulk s fs mode src b)"
| "call_tool _ s = s"

definition call_tools :: "tool_call list \<Rightarrow> store \<Rightarrow> store" where
  "call_tools cs s = fold call_tool cs s"

subsection \<open>A concrete table\<close>

text \<open>
  The table of the specification's example: A (priority 5, pending), B (priority 2, pending)
  and C (priority 8, passing); and a well-formed and an ill-formed item for bulk creation.
\<close>

definition ex_A :: feature where
  "ex_A = \<lparr>feature_id = 1, priority = 5, category = ''auth'', name = ''Login form'',
           description = ''User can log in'', steps = [''open'', ''submit''], passes = False,
           source = ''initializer'', batch_id = None\<rparr>"

definition ex_B :: feature where
  "ex_B = \<lparr>feature_id = 2, priority = 2, category = ''auth'', name = ''Logout'',
           description = ''Ends the AUTH session'', steps = [''click''], passes = False,
           source = ''initializer'', batch_id = None\<rparr>"

definition ex_C :: feature where
  "ex_C = \<lparr>feature_id = 3, priority = 8, category = ''ui'', name = ''abc'',
           description = ''Dark mode'', steps = [''toggle''], passes = True,
           source = ''initializer'', batch_id = None\<rparr>"

definition ex_store :: store where
  "ex_store = [ex_A, ex_B, ex_C]"

definition ex_item :: feature_data where
  "ex_item = \<lparr>d_category = Some ''api'', d_name = Some ''Rate limit'',
              d_description = Some ''Limit requests'', d_steps = Some [''call twice'']\<rparr>"

definition ex_item2 :: feature_data where
  "ex_item2 = \<lparr>d_category = Some ''api'', d_name = Some ''Pagination'',
               d_description = Some ''Page the results'', d_steps = Some [''list'', ''next'']\<rparr>"

definition ex_bad_item :: feature_data where
  "ex_bad_item = \<lparr>d_category = Some ''api'', d_name = None,
                  d_description = Some ''Limit requests'', d_steps = Some [''call twice'']\<rparr>"

definition ex_calls :: "tool_call list" where
  "ex_calls = [GetStats, Skip 3, MarkPassing 2,
               CreateBulk [ex_item, ex_item2] ''prepend'' ''enhancement'' None,
               Search ''auth'' 10, Skip 1, GetNext, GetForRegression 3, GetAllCategories,
               GetSummary, CreateBulk [ex_item] ''append'' ''enhancement'' None]"

section \<open>Properties\<close>

lemmas ex_defs = ex_store_def ex_A_def ex_B_def ex_C_def ex_item_def ex_item2_def ex_bad_item_def

subsection \<open>Queries that take the first row of an ordered result\<close>

lemma first_eq_None [simp]: "first xs = None \<longleftrightarrow> xs = []"
  by (cases xs) (simp_all add: first_def)

lemma first_eq_Some: "first xs = Some x \<longleftrightarrow> (\<exists>ys. xs = x # ys)"
  by (cases xs) (auto simp: first_def)

lemma first_sort_key:
  assumes "first (sort_key k xs) = Some x"
  shows "x \<in> set xs" and "\<And>y. y \<in> set xs \<Longrightarrow> k x \<le> k y"
proof -
  from assms obtain ys where eq: "sort_key k xs = x # ys"
    by (auto simp: first_eq_Some)
  have "set (sort_key k xs) = set xs" by simp
  with eq show "x \<in> set xs" by auto
  fix y assume "y \<in> set xs"
  then have y: "y \<in> set (x # ys)" using eq by (metis set_sort)
  have "sorted (map k (x # ys))" using eq by (metis sorted_sort_key)
  with y show "k x \<le> k y" by auto
qed

lemma sort_key_eq_Nil: "sort_key k xs = [] \<longleftrightarrow> xs = []"
  by (metis length_sort length_0_conv)

lemma get_next_NoWork: "feature_get_next s = Inl e \<longleftrightarrow> e = NoWork \<and> (\<forall>f\<in>set s. passes f)"
proof (cases "first (sort_key (\<lambda>f. (priority f, feature_id f)) (filter (\<lambda>f. \<not> passes f) s))")
  case None
  then have "filter (\<lambda>f. \<not> passes f) s = []" by (simp add: sort_key_eq_Nil)
  then have "\<forall>f\<in>set s. passes f" by (simp add: filter_empty_conv)
  with None show ?thesis by (auto simp: feature_get_next_def first_def)
next
  case (Some x)
  then have "filter (\<lambda>f. \<not> passes f) s \<noteq> []"
    by (auto simp: first_eq_Some)
  then have "\<not> (\<forall>f\<in>set s. passes f)" by (simp add: filter_empty_conv)
  with Some show ?thesis by (auto simp: feature_get_next_def)
qed

lemma get_next_Some:
  assumes "feature_get_next s = Inr f"
  shows "f \<in> set s" "\<not> passes f"
    "\<And>g. g \<in> set s \<Longrightarrow> \<not> passes g \<Longrightarrow> (priority f, feature_id f) \<le> (priority g, feature_id g)"
proof -
  let ?k = "\<lambda>f. (priority f, feature_id f)"
  let ?p = "filter (\<lambda>f. \<not> passes f) s"
  from assms have fs: "first (sort_key ?k ?p) = Some f"
    by (auto simp: feature_get_next_def split: option.splits)
  from first_sort_key(1)[OF fs] show "f \<in> set s" "\<not> passes f" by auto
  fix g assume "g \<in> set s" "\<not> passes g"
  then have "g \<in> set ?p" by simp
  from first_sort_key(2)[OF fs this] show "?k f \<le> ?k g" .
qed

lemma get_next_set_cong:
  assumes d: "distinct (map feature_id s)" and eq: "set s' = set s"
  shows "feature_get_next s' = feature_get_next s"
proof (cases "feature_get_next s")
  case (Inl e)
  then have "e = NoWork \<and> (\<forall>f\<in>set s'. passes f)" using eq by (simp add: get_next_NoWork)
  then have "feature_get_next s' = Inl e" by (simp add: get_next_NoWork)
  with Inl show ?thesis by simp
next
  case (Inr f)
  show ?thesis
  proof (cases "feature_get_next s'")
    case (Inl e)
    then have "\<forall>f\<in>set s. passes f" using eq by (simp add: get_next_NoWork)
    with get_next_Some(1,2)[OF Inr] show ?thesis by blast
  next
    case r': (Inr f')
    have m: "f \<in> set s" "\<not> passes f" "f' \<in> set s" "\<not> passes f'"
      using get_next_Some(1,2)[OF Inr] get_next_Some(1,2)[OF r'] eq by auto
    have "(priority f, feature_id f) \<le> (priority f', feature_id f')"
      using get_next_Some(3)[OF Inr] m by blast
    moreover have "(priority f', feature_id f') \<le> (priority f, feature_id f)"
      using get_next_Some(3)[OF r'] m eq by blast
    ultimately have "feature_id f = feature_id f'" by auto
    moreover have "inj_on feature_id (set s)" using d by (simp add: distinct_map)
    ultimately have "f = f'" using m by (auto dest: inj_onD)
    with Inr r' show ?thesis by simp
  qed
qed


text \<open>
  Claim C1. \<^verbatim>\<open>feature_get_next\<close> answers "no work" exactly when every feature passes, and
  has no other error. Otherwise it returns a pending feature of the table whose pair
  (priority, id) is least among the pending features. The answer is determined by the rows
  alone: two tables with the same rows, whose identities are unique, give the same answer
  in whatever order the rows are stored, so a repeated call on an unchanged table returns
  the same feature.
\<close>

theorem get_next_minimal:
  "(feature_get_next s = Inl NoWork \<longleftrightarrow> (\<forall>f\<in>set s. passes f)) \<and>
   (\<forall>e. feature_get_next s = Inl e \<longrightarrow> e = NoWork) \<and>
   (\<forall>f. feature_get_next s = Inr f \<longrightarrow>
      f \<in> set s \<and> \<not> passes f \<and>
      (\<forall>g\<in>set s. \<not> passes g \<longrightarrow> (priority f, feature_id f) \<le> (priority g, feature_id g))) \<and>
   (distinct (map feature_id s) \<and> set s' = set s \<longrightarrow> feature_get_next s' = feature_get_next s)"
  using get_next_NoWork[of s] get_next_Some[of s] get_next_set_cong[of s s'] by blast

theorem get_next_minimal_witness:
  "feature_get_next ex_store = Inr ex_B \<and> ex_B \<in> set ex_store \<and> \<not> passes ex_B \<and>
   ex_A \<in> set ex_store \<and> \<not> passes ex_A \<and>
   (priority ex_B, feature_id ex_B) \<le> (priority ex_A, feature_id ex_A) \<and>
   distinct (map feature_id ex_store) \<and> set (rev ex_store) = set ex_store \<and>
   feature_get_next (rev ex_store) = Inr ex_B \<and>
   passes ex_C \<and> feature_get_next [ex_C] = Inl NoWork"
proof -
  have nx: "feature_get_next ex_store = Inr ex_B"
    by (simp add: ex_defs feature_get_next_def first_def)
  have A: "ex_A \<in> set ex_store" "\<not> passes ex_A"
    by (simp_all add: ex_store_def ex_A_def)
  have d: "distinct (map feature_id ex_store)"
    by (simp add: ex_defs)
  have r: "set (rev ex_store) = set ex_store"
    by simp
  have C: "\<forall>f\<in>set [ex_C]. passes f"
    by (simp add: ex_C_def)
  note inst = get_next_minimal[of ex_store "rev ex_store"]
  from inst nx have B: "ex_B \<in> set ex_store" "\<not> passes ex_B"
    by blast+
  from inst nx A have le: "(priority ex_B, feature_id ex_B) \<le> (priority ex_A, feature_id ex_A)"
    by blast
  from inst d r nx have rev: "feature_get_next (rev ex_store) = Inr ex_B"
    by simp
  from get_next_minimal[of "[ex_C]" "[ex_C]"] C have none: "feature_get_next [ex_C] = Inl NoWork"
    by blast
  from C have "passes ex_C" by simp
  with nx A B le d r rev none show ?thesis by blast
qed

subsection \<open>Looking a row up and updating it\<close>

lemma get_feature_None: "get_feature s i = None \<longleftrightarrow> i \<notin> feature_id ` set s"
  by (auto simp: get_feature_def filter_empty_conv)

lemma get_feature_Some: "get_feature s i = Some f \<Longrightarrow> f \<in> set s \<and> feature_id f = i"
proof -
  assume "get_feature s i = Some f"
  then obtain ys where "filter (\<lambda>f. feature_id f = i) s = f # ys"
    by (auto simp: get_feature_def first_eq_Some)
  then have "f \<in> set (filter (\<lambda>f. feature_id f = i) s)" by simp
  then show ?thesis by simp
qed

lemma get_feature_unique:
  "distinct (map feature_id s) \<Longrightarrow> f \<in> set s \<Longrightarrow> get_feature s (feature_id f) = Some f"
proof -
  assume d: "distinct (map feature_id s)" and f: "f \<in> set s"
  then have "get_feature s (feature_id f) \<noteq> None" by (auto simp: get_feature_None)
  then obtain g where g: "get_feature s (feature_id f) = Some g" by auto
  from get_feature_Some[OF g] have "g \<in> set s" "feature_id g = feature_id f" by auto
  moreover have "inj_on feature_id (set s)" using d by (simp add: distinct_map)
  ultimately have "g = f" using f by (auto dest: inj_onD)
  with g show ?thesis by simp
qed

lemma get_feature_update_row:
  assumes "\<And>f. feature_id (upd f) = feature_id f"
  shows "get_feature (update_row i upd s) j =
           (if j = i then map_option upd (get_feature s j) else get_feature s j)"
  using assms by (induction s) (auto simp: get_feature_def update_row_def first_def)

lemma update_row_idem:
  assumes "\<And>f. feature_id (upd f) = feature_id f" "\<And>f. upd (upd f) = upd f"
  shows "update_row i upd (update_row i upd s) = update_row i upd s"
  using assms by (simp add: update_row_def)


text \<open>
  Claim C6. \<^verbatim>\<open>feature_mark_passing\<close> answers "not found" and leaves the table alone when no
  row has the identity. Otherwise it sets \<open>passes\<close> on the row with that identity, changes
  no other row and no other field, and returns the updated row. Calling it again with the
  same identity succeeds again, returns the same row with \<open>passes\<close> true, and leaves the
  table as the first call left it.
\<close>

theorem mark_passing_idempotent:
  "(i \<notin> feature_id ` set s \<longrightarrow> feature_mark_passing s i = (Inl (NotFound i), s)) \<and>
   (i \<in> feature_id ` set s \<longrightarrow>
      (\<exists>f \<in> set s. feature_id f = i \<and> get_feature s i = Some f \<and>
         feature_mark_passing s i =
           (Inr (f\<lparr>passes := True\<rparr>),
            map (\<lambda>g. if feature_id g = i then g\<lparr>passes := True\<rparr> else g) s) \<and>
         f\<lparr>passes := True\<rparr> \<in> set (snd (feature_mark_passing s i)) \<and>
         feature_mark_passing (snd (feature_mark_passing s i)) i =
           (Inr (f\<lparr>passes := True\<rparr>), snd (feature_mark_passing s i))))"
proof (intro conjI impI)
  assume "i \<notin> feature_id ` set s"
  then have "get_feature s i = None" by (simp add: get_feature_None)
  then show "feature_mark_passing s i = (Inl (NotFound i), s)"
    by (simp add: feature_mark_passing_def)
next
  let ?upd = "\<lambda>f::feature. f\<lparr>passes := True\<rparr>"
  assume "i \<in> feature_id ` set s"
  then obtain f where f: "get_feature s i = Some f"
    using get_feature_None[of s i] by auto
  from get_feature_Some[OF f] have fs: "f \<in> set s" "feature_id f = i" by auto
  have r1: "feature_mark_passing s i = (Inr (?upd f), update_row i ?upd s)"
    using f by (simp add: feature_mark_passing_def)
  have g2: "get_feature (update_row i ?upd s) i = Some (?upd f)"
    using f by (simp add: get_feature_update_row)
  have r2: "feature_mark_passing (update_row i ?upd s) i = (Inr (?upd f), update_row i ?upd s)"
    using g2 by (simp add: feature_mark_passing_def update_row_idem)
  have mem: "?upd f \<in> set (update_row i ?upd s)"
    using get_feature_Some[OF g2] by simp
  have m: "update_row i ?upd s = map (\<lambda>g. if feature_id g = i then g\<lparr>passes := True\<rparr> else g) s"
    by (simp add: update_row_def)
  have s': "snd (feature_mark_passing s i) = update_row i ?upd s"
    by (simp add: r1)
  have c1: "feature_mark_passing s i =
           (Inr (?upd f), map (\<lambda>g. if feature_id g = i then g\<lparr>passes := True\<rparr> else g) s)"
    using r1 m by simp
  have c2: "?upd f \<in> set (snd (feature_mark_passing s i))"
    using mem s' by simp
  have c3: "feature_mark_passing (snd (feature_mark_passing s i)) i =
           (Inr (?upd f), snd (feature_mark_passing s i))"
    using r2 s' by simp
  show "\<exists>f \<in> set s. feature_id f = i \<and> get_feature s i = Some f \<and>
         feature_mark_passing s i =
           (Inr (f\<lparr>passes := True\<rparr>),
            map (\<lambda>g. if feature_id g = i then g\<lparr>passes := True\<rparr> else g) s) \<and>
         f\<lparr>passes := True\<rparr> \<in> set (snd (feature_mark_passing s i)) \<and>
         feature_mark_passing (snd (feature_mark_passing s i)) i =
           (Inr (f\<lparr>passes := True\<rparr>), snd (feature_mark_passing s i))"
    using fs f c1 c2 c3 by blast
qed


theorem mark_passing_idempotent_witness:
  "4 \<notin> feature_id ` set ex_store \<and>
   feature_mark_passing ex_store 4 = (Inl (NotFound 4), ex_store) \<and>
   2 \<in> feature_id ` set ex_store \<and>
   feature_mark_passing ex_store 2
     = (Inr (ex_B\<lparr>passes := True\<rparr>), [ex_A, ex_B\<lparr>passes := True\<rparr>, ex_C]) \<and>
   feature_mark_passing [ex_A, ex_B\<lparr>passes := True\<rparr>, ex_C] 2
     = (Inr (ex_B\<lparr>passes := True\<rparr>), [ex_A, ex_B\<lparr>passes := True\<rparr>, ex_C])"
proof -
  have ids: "feature_id ` set ex_store = {1, 2, 3}"
    by (simp add: ex_defs)
  have n4: "4 \<notin> feature_id ` set ex_store" and i2: "2 \<in> feature_id ` set ex_store"
    unfolding ids by simp_all
  have g: "get_feature ex_store 2 = Some ex_B"
    by (simp add: ex_defs get_feature_def first_def)
  have m: "map (\<lambda>g. if feature_id g = 2 then g\<lparr>passes := True\<rparr> else g) ex_store
             = [ex_A, ex_B\<lparr>passes := True\<rparr>, ex_C]"
    by (simp add: ex_defs)
  from mark_passing_idempotent[of 4 ex_store] n4
  have r4: "feature_mark_passing ex_store 4 = (Inl (NotFound 4), ex_store)"
    by blast
  from mark_passing_idempotent[of 2 ex_store] i2 g
  have r2: "feature_mark_passing ex_store 2 =
              (Inr (ex_B\<lparr>passes := True\<rparr>),
               map (\<lambda>g. if feature_id g = 2 then g\<lparr>passes := True\<rparr> else g) ex_store) \<and>
            feature_mark_passing (snd (feature_mark_passing ex_store 2)) 2 =
              (Inr (ex_B\<lparr>passes := True\<rparr>), snd (feature_mark_passing ex_store 2))"
    by auto
  from r2 m have a: "feature_mark_passing ex_store 2
     = (Inr (ex_B\<lparr>passes := True\<rparr>), [ex_A, ex_B\<lparr>passes := True\<rparr>, ex_C])"
    by simp
  have sn: "snd (feature_mark_passing ex_store 2) = [ex_A, ex_B\<lparr>passes := True\<rparr>, ex_C]"
    by (simp only: a snd_conv)
  from r2 have "feature_mark_passing (snd (feature_mark_passing ex_store 2)) 2 =
              (Inr (ex_B\<lparr>passes := True\<rparr>), snd (feature_mark_passing ex_store 2))"
    by (rule conjunct2)
  then have b: "feature_mark_passing [ex_A, ex_B\<lparr>passes := True\<rparr>, ex_C] 2
     = (Inr (ex_B\<lparr>passes := True\<rparr>), [ex_A, ex_B\<lparr>passes := True\<rparr>, ex_C])"
    by (simp only: sn)
  from n4 i2 r4 a b show ?thesis by blast
qed

subsection \<open>Largest and smallest priority\<close>

lemma first_sort_key_uminus:
  fixes xs :: "int list"
  assumes "xs \<noteq> []"
  shows "first (sort_key uminus xs) = Some (Max (set xs))"
proof -
  from assms have "sort_key uminus xs \<noteq> []" by (simp add: sort_key_eq_Nil)
  then obtain m where m: "first (sort_key uminus xs) = Some m"
    by (cases "sort_key uminus xs") (auto simp: first_def)
  have "m \<in> set xs" by (rule first_sort_key(1)[OF m])
  moreover have "\<And>y. y \<in> set xs \<Longrightarrow> y \<le> m"
    using first_sort_key(2)[OF m] by force
  ultimately have "Max (set xs) = m" by (intro Max_eqI) auto
  with m show ?thesis by simp
qed

lemma first_sort:
  fixes xs :: "int list"
  assumes "xs \<noteq> []"
  shows "first (sort xs) = Some (Min (set xs))"
proof -
  from assms have "sort xs \<noteq> []" by (simp add: sort_key_eq_Nil)
  then obtain m where m: "first (sort xs) = Some m"
    by (cases "sort xs") (auto simp: first_def)
  have "m \<in> set xs" by (rule first_sort_key(1)[OF m])
  moreover have "\<And>y. y \<in> set xs \<Longrightarrow> m \<le> y"
    using first_sort_key(2)[OF m] by force
  ultimately have "Min (set xs) = m" by (intro Min_eqI) auto
  with m show ?thesis by simp
qed

lemma max_priority_result_eq:
  "max_priority_result s = (if s = [] then None else Some (Max (priority ` set s)))"
  using first_sort_key_uminus[of "map priority s"] by (simp add: max_priority_result_def)

lemma append_start_eq:
  "append_start s = (if s = [] then 1 else Max (priority ` set s) + 1)"
  by (simp add: append_start_def max_priority_result_eq)


text \<open>
  Claim C2. \<^verbatim>\<open>feature_skip\<close> answers "not found" when no row has the identity, and "invalid
  state" when the feature passes; the table is unchanged in both cases. On a pending feature
  it sets the priority to one more than the largest priority of the whole table, passing
  features included, changes nothing else, and reports the identity, the name, the old and
  the new priority. The feature meant is the row that the lookup by identity returns, the
  only row with that identity when identities are unique.
\<close>

theorem skip_moves_to_end:
  "(i \<notin> feature_id ` set s \<longrightarrow> feature_skip s i = (Inl (NotFound i), s)) \<and>
   (i \<in> feature_id ` set s \<longrightarrow> (\<exists>f\<in>set s. feature_id f = i \<and> get_feature s i = Some f)) \<and>
   (distinct (map feature_id s) \<longrightarrow> (\<forall>f\<in>set s. get_feature s (feature_id f) = Some f)) \<and>
   (\<forall>f. get_feature s i = Some f \<and> passes f \<longrightarrow> feature_skip s i = (Inl InvalidState, s)) \<and>
   (\<forall>f. get_feature s i = Some f \<and> \<not> passes f \<longrightarrow>
      (\<exists>r. feature_skip s i =
             (Inr r, map (\<lambda>g. if feature_id g = i
                               then g\<lparr>priority := Max (priority ` set s) + 1\<rparr> else g) s) \<and>
           skip_id r = i \<and> skip_name r = name f \<and> old_priority r = priority f \<and>
           new_priority r = Max (priority ` set s) + 1))"
proof (intro conjI impI allI)
  assume "i \<notin> feature_id ` set s"
  then have "get_feature s i = None" by (simp add: get_feature_None)
  then show "feature_skip s i = (Inl (NotFound i), s)"
    by (simp add: feature_skip_def)
next
  assume "i \<in> feature_id ` set s"
  then obtain f where f: "get_feature s i = Some f"
    using get_feature_None[of s i] by auto
  with get_feature_Some[OF f]
  show "\<exists>f\<in>set s. feature_id f = i \<and> get_feature s i = Some f" by blast
next
  assume "distinct (map feature_id s)"
  then show "\<forall>f\<in>set s. get_feature s (feature_id f) = Some f"
    by (simp add: get_feature_unique)
next
  fix f assume "get_feature s i = Some f \<and> passes f"
  then show "feature_skip s i = (Inl InvalidState, s)"
    by (simp add: feature_skip_def)
next
  fix f assume a: "get_feature s i = Some f \<and> \<not> passes f"
  with get_feature_Some[of s i f] have fs: "f \<in> set s" "feature_id f = i" by auto
  then have ne: "s \<noteq> []" by auto
  let ?new = "Max (priority ` set s) + 1"
  let ?r = "\<lparr>skip_id = feature_id f, skip_name = name f, old_priority = priority f,
             new_priority = ?new,
             message = ''Feature '' @ [CHR 0x27] @ name f @ [CHR 0x27]
                         @ '' moved to end of queue''\<rparr>"
  have "feature_skip s i = (Inr ?r, update_row i (\<lambda>f. f\<lparr>priority := ?new\<rparr>) s)"
    using a ne by (simp add: feature_skip_def max_priority_result_eq Let_def)
  then have "feature_skip s i =
             (Inr ?r, map (\<lambda>g. if feature_id g = i then g\<lparr>priority := ?new\<rparr> else g) s)"
    by (simp add: update_row_def)
  moreover have "skip_id ?r = i" "skip_name ?r = name f" "old_priority ?r = priority f"
    "new_priority ?r = ?new" using fs by simp_all
  ultimately show "\<exists>r. feature_skip s i =
             (Inr r, map (\<lambda>g. if feature_id g = i
                               then g\<lparr>priority := Max (priority ` set s) + 1\<rparr> else g) s) \<and>
           skip_id r = i \<and> skip_name r = name f \<and> old_priority r = priority f \<and>
           new_priority r = Max (priority ` set s) + 1"
    by blast
qed


theorem skip_moves_to_end_witness:
  "4 \<notin> feature_id ` set ex_store \<and> feature_skip ex_store 4 = (Inl (NotFound 4), ex_store) \<and>
   1 \<in> feature_id ` set ex_store \<and> (\<exists>f\<in>set ex_store. get_feature ex_store 1 = Some f) \<and>
   distinct (map feature_id ex_store) \<and> ex_A \<in> set ex_store \<and>
   get_feature ex_store (feature_id ex_A) = Some ex_A \<and>
   get_feature ex_store 3 = Some ex_C \<and> passes ex_C \<and>
   feature_skip ex_store 3 = (Inl InvalidState, ex_store) \<and>
   get_feature ex_store 2 = Some ex_B \<and> \<not> passes ex_B \<and>
   snd (feature_skip ex_store 2) = [ex_A, ex_B\<lparr>priority := 9\<rparr>, ex_C] \<and>
   (\<exists>r. fst (feature_skip ex_store 2) = Inr r \<and> skip_id r = 2 \<and> skip_name r = ''Logout'' \<and>
        old_priority r = 2 \<and> new_priority r = 9)"
proof -
  have n4: "4 \<notin> feature_id ` set ex_store"
    by (simp add: ex_defs)
  have gC: "get_feature ex_store 3 = Some ex_C" and gB: "get_feature ex_store 2 = Some ex_B"
    by (simp_all add: ex_defs get_feature_def first_def)
  have pC: "passes ex_C" and pB: "\<not> passes ex_B"
    by (simp_all add: ex_defs)
  have mx: "Max (priority ` set ex_store) + 1 = 9"
    by (simp add: ex_defs)
  have m: "map (\<lambda>g. if feature_id g = 2 then g\<lparr>priority := 9\<rparr> else g) ex_store
             = [ex_A, ex_B\<lparr>priority := 9\<rparr>, ex_C]"
    by (simp add: ex_defs)
  have nm: "name ex_B = ''Logout''" "priority ex_B = 2"
    by (simp_all add: ex_B_def)
  from skip_moves_to_end[of 4 ex_store] n4
  have r4: "feature_skip ex_store 4 = (Inl (NotFound 4), ex_store)"
    by blast
  from skip_moves_to_end[of 3 ex_store] gC pC
  have r3: "feature_skip ex_store 3 = (Inl InvalidState, ex_store)"
    by blast
  from skip_moves_to_end[of 2 ex_store] gB pB
  obtain r where r: "feature_skip ex_store 2 =
             (Inr r, map (\<lambda>g. if feature_id g = 2
                               then g\<lparr>priority := Max (priority ` set ex_store) + 1\<rparr> else g)
                       ex_store)"
           "skip_id r = 2" "skip_name r = name ex_B" "old_priority r = priority ex_B"
           "new_priority r = Max (priority ` set ex_store) + 1"
    by blast
  from r(1) have s2: "snd (feature_skip ex_store 2) = [ex_A, ex_B\<lparr>priority := 9\<rparr>, ex_C]"
    by (simp only: mx m snd_conv)
  from r have e2: "\<exists>r. fst (feature_skip ex_store 2) = Inr r \<and> skip_id r = 2 \<and>
        skip_name r = ''Logout'' \<and> old_priority r = 2 \<and> new_priority r = 9"
    by (simp add: mx nm)
  have i1: "1 \<in> feature_id ` set ex_store"
    by (simp add: ex_defs)
  have d: "distinct (map feature_id ex_store)"
    by (simp add: ex_defs)
  have A: "ex_A \<in> set ex_store"
    by (simp add: ex_store_def)
  from skip_moves_to_end[of 1 ex_store] i1
  have e1: "\<exists>f\<in>set ex_store. get_feature ex_store 1 = Some f"
    by blast
  from skip_moves_to_end[of 1 ex_store] d A
  have gA: "get_feature ex_store (feature_id ex_A) = Some ex_A"
    by blast
  from n4 r4 i1 e1 d A gA gC pC r3 gB pB s2 e2 show ?thesis by blast
qed


subsection \<open>Bulk creation\<close>

lemma required_fields_None:
  "required_fields d = None \<longleftrightarrow>
     d_category d = None \<or> d_name d = None \<or> d_description d = None \<or> d_steps d = None"
  by (auto simp: required_fields_def split: option.splits)

lemma required_fields_Some:
  "required_fields d = Some (c, n, de, st) \<longleftrightarrow>
     d_category d = Some c \<and> d_name d = Some n \<and> d_description d = Some de \<and> d_steps d = Some st"
  by (auto simp: required_fields_def split: option.splits)

lemma add_features_ok:
  assumes "\<forall>d\<in>set ds. required_fields d \<noteq> None"
  shows "add_features start nid src b i ds added =
           Inr (added @ map (\<lambda>(k, d). db_feature start nid src b k (the (required_fields d)))
                          (enumerate i ds))"
  using assms by (induction ds arbitrary: i added) auto

lemma add_features_bad:
  assumes "j < length ds" "required_fields (ds ! j) = None"
    "\<forall>k<j. required_fields (ds ! k) \<noteq> None"
  shows "add_features start nid src b i ds added = Inl (MissingFields (i + j))"
  using assms
proof (induction ds arbitrary: i j added)
  case Nil
  then show ?case by simp
next
  case (Cons d ds)
  show ?case
  proof (cases j)
    case 0
    with Cons.prems show ?thesis by simp
  next
    case (Suc j')
    from Cons.prems(3) Suc have "required_fields ((d # ds) ! 0) \<noteq> None" by blast
    then obtain v where v: "required_fields d = Some v" by auto
    have "\<forall>k<j'. required_fields (ds ! k) \<noteq> None"
      using Cons.prems(3) Suc by auto
    with Cons.IH[of j' "Suc i"] Cons.prems(1,2) Suc
    have "add_features start nid src b (Suc i) ds (added @ [db_feature start nid src b i v])
            = Inl (MissingFields (Suc i + j'))" by simp
    with v Suc show ?thesis by simp
  qed
qed

lemma first_bad_index:
  assumes "\<exists>d\<in>set ds. P d"
  shows "\<exists>j<length ds. P (ds ! j) \<and> (\<forall>k<j. \<not> P (ds ! k))"
proof -
  from assms obtain n where n: "n < length ds" "P (ds ! n)"
    by (auto simp: in_set_conv_nth)
  define j where "j = (LEAST n. n < length ds \<and> P (ds ! n))"
  have j: "j < length ds \<and> P (ds ! j)"
    unfolding j_def using n by (intro LeastI[of "\<lambda>n. n < length ds \<and> P (ds ! n)" n]) simp
  have "\<forall>k<j. \<not> P (ds ! k)"
  proof (intro allI impI notI)
    fix k assume k: "k < j" "P (ds ! k)"
    then have "k < length ds \<and> P (ds ! k)" using j by simp
    then have "j \<le> k" unfolding j_def by (rule Least_le)
    with k show False by simp
  qed
  with j show ?thesis by blast
qed

lemma min_pending_eq:
  "min_pending s = (if \<forall>f\<in>set s. passes f then None
                    else Some (Min (priority ` {f \<in> set s. \<not> passes f})))"
proof (cases "filter (\<lambda>f. \<not> passes f) s = []")
  case True
  then have "\<forall>f\<in>set s. passes f" by (simp add: filter_empty_conv)
  with True show ?thesis by (simp add: min_pending_def first_def)
next
  case False
  then have ne: "\<not> (\<forall>f\<in>set s. passes f)" by (simp add: filter_empty_conv)
  have "set (map priority (filter (\<lambda>f. \<not> passes f) s)) = priority ` {f \<in> set s. \<not> passes f}"
    by auto
  with first_sort[of "map priority (filter (\<lambda>f. \<not> passes f) s)"] False ne
  show ?thesis by (simp add: min_pending_def)
qed

lemma create_bulk_ok:
  assumes "\<forall>d\<in>set ds. required_fields d \<noteq> None"
  shows "feature_create_bulk s ds mode src b =
    (Inr \<lparr>created = length ds, priority_mode = mode,
          start_priority = calc_start_priority s mode (length ds),
          res_source = src, res_batch_id = b\<rparr>,
     s @ map (\<lambda>(k, d). db_feature (calc_start_priority s mode (length ds)) (next_id s) src b k
                          (the (required_fields d))) (enumerate 0 ds))"
  by (simp add: feature_create_bulk_def add_features_ok[OF assms] Let_def)

lemma create_bulk_bad:
  assumes "j < length ds" "required_fields (ds ! j) = None"
    "\<forall>k<j. required_fields (ds ! k) \<noteq> None"
  shows "feature_create_bulk s ds mode src b = (Inl (MissingFields j), s)"
  by (simp add: feature_create_bulk_def add_features_bad[OF assms] Let_def)


lemma new_row_nth:
  fixes st nid :: int and src :: string and b :: "string option"
  assumes "k < length ds" "required_fields (ds ! k) \<noteq> None"
  defines "new \<equiv> map (\<lambda>(k, d). db_feature st nid src b k (the (required_fields d)))
                     (enumerate 0 ds)"
  shows "feature_id (new ! k) = nid + int k \<and> priority (new ! k) = st + int k \<and>
         \<not> passes (new ! k) \<and>
         d_category (ds ! k) = Some (category (new ! k)) \<and>
         d_name (ds ! k) = Some (name (new ! k)) \<and>
         d_description (ds ! k) = Some (description (new ! k)) \<and>
         d_steps (ds ! k) = Some (steps (new ! k)) \<and>
         source (new ! k) = src \<and> batch_id (new ! k) = b"
proof -
  from assms(2) obtain c n de st' where v: "required_fields (ds ! k) = Some (c, n, de, st')"
    by (cases "required_fields (ds ! k)") auto
  have "new ! k = db_feature st nid src b k (c, n, de, st')"
    using assms(1) v by (simp add: new_def nth_enumerate_eq)
  with v show ?thesis
    by (simp add: db_feature_def required_fields_Some)
qed


text \<open>
  Claim C5. In append mode (any mode other than "prepend" takes this branch), when every item
  has the four keys, \<^verbatim>\<open>feature_create_bulk\<close> succeeds, reports the number of items and the
  start priority, and appends one row per item in input order. The start priority is one
  more than the largest priority of the table, or 1 for an empty table, and the item at
  index \<open>k\<close> gets the start priority plus \<open>k\<close>. Every new row has \<open>passes\<close> false and
  carries the item's category, name, description and steps, the source and the batch id.
\<close>

theorem create_bulk_append:
  "(\<forall>d\<in>set ds. d_category d \<noteq> None \<and> d_name d \<noteq> None \<and> d_description d \<noteq> None \<and>
               d_steps d \<noteq> None) \<and> mode \<noteq> ''prepend'' \<longrightarrow>
   (\<exists>new. feature_create_bulk s ds mode src b =
            (Inr \<lparr>created = length ds, priority_mode = mode,
                  start_priority = (if s = [] then 1 else Max (priority ` set s) + 1),
                  res_source = src, res_batch_id = b\<rparr>,
             s @ new) \<and>
          length new = length ds \<and>
          (\<forall>k<length ds.
             priority (new ! k) = (if s = [] then 1 else Max (priority ` set s) + 1) + int k \<and>
             \<not> passes (new ! k) \<and>
             feature_id (new ! k) = next_id s + int k \<and>
             d_category (ds ! k) = Some (category (new ! k)) \<and>
             d_name (ds ! k) = Some (name (new ! k)) \<and>
             d_description (ds ! k) = Some (description (new ! k)) \<and>
             d_steps (ds ! k) = Some (steps (new ! k)) \<and>
             source (new ! k) = src \<and> batch_id (new ! k) = b))"
proof (intro impI, elim conjE)
  assume keys: "\<forall>d\<in>set ds. d_category d \<noteq> None \<and> d_name d \<noteq> None \<and>
                  d_description d \<noteq> None \<and> d_steps d \<noteq> None"
    and mode: "mode \<noteq> ''prepend''"
  let ?st = "if s = [] then 1 else Max (priority ` set s) + 1"
  let ?new = "map (\<lambda>(k, d). db_feature ?st (next_id s) src b k (the (required_fields d)))
                (enumerate 0 ds)"
  from keys have wf: "\<forall>d\<in>set ds. required_fields d \<noteq> None"
    by (simp add: required_fields_None)
  have st: "calc_start_priority s mode (length ds) = ?st"
    using mode by (simp add: calc_start_priority_def append_start_eq)
  have r: "feature_create_bulk s ds mode src b =
            (Inr \<lparr>created = length ds, priority_mode = mode, start_priority = ?st,
                  res_source = src, res_batch_id = b\<rparr>, s @ ?new)"
    using create_bulk_ok[OF wf, of s mode src b] by (simp only: st)
  have len: "length ?new = length ds" by simp
  have rows: "\<forall>k<length ds.
             priority (?new ! k) = ?st + int k \<and>
             \<not> passes (?new ! k) \<and>
             feature_id (?new ! k) = next_id s + int k \<and>
             d_category (ds ! k) = Some (category (?new ! k)) \<and>
             d_name (ds ! k) = Some (name (?new ! k)) \<and>
             d_description (ds ! k) = Some (description (?new ! k)) \<and>
             d_steps (ds ! k) = Some (steps (?new ! k)) \<and>
             source (?new ! k) = src \<and> batch_id (?new ! k) = b"
  proof (intro allI impI)
    fix k assume k: "k < length ds"
    with wf have "required_fields (ds ! k) \<noteq> None" by simp
    from new_row_nth[OF k this, of ?st "next_id s" src b]
    show "priority (?new ! k) = ?st + int k \<and>
             \<not> passes (?new ! k) \<and>
             feature_id (?new ! k) = next_id s + int k \<and>
             d_category (ds ! k) = Some (category (?new ! k)) \<and>
             d_name (ds ! k) = Some (name (?new ! k)) \<and>
             d_description (ds ! k) = Some (description (?new ! k)) \<and>
             d_steps (ds ! k) = Some (steps (?new ! k)) \<and>
             source (?new ! k) = src \<and> batch_id (?new ! k) = b"
      by blast
  qed
  from r len rows show "\<exists>new. feature_create_bulk s ds mode src b =
            (Inr \<lparr>created = length ds, priority_mode = mode,
                  start_priority = ?st, res_source = src, res_batch_id = b\<rparr>,
             s @ new) \<and>
          length new = length ds \<and>
          (\<forall>k<length ds.
             priority (new ! k) = ?st + int k \<and>
             \<not> passes (new ! k) \<and>
             feature_id (new ! k) = next_id s + int k \<and>
             d_category (ds ! k) = Some (category (new ! k)) \<and>
             d_name (ds ! k) = Some (name (new ! k)) \<and>
             d_description (ds ! k) = Some (description (new ! k)) \<and>
             d_steps (ds ! k) = Some (steps (new ! k)) \<and>
             source (new ! k) = src \<and> batch_id (new ! k) = b)"
    by (intro exI[of _ ?new] conjI)
qed


theorem create_bulk_append_witness:
  "d_category ex_item \<noteq> None \<and> d_name ex_item \<noteq> None \<and> d_description ex_item \<noteq> None \<and>
   d_steps ex_item \<noteq> None \<and> d_category ex_item2 \<noteq> None \<and> d_name ex_item2 \<noteq> None \<and>
   d_description ex_item2 \<noteq> None \<and> d_steps ex_item2 \<noteq> None \<and>
   ex_store \<noteq> [] \<and> Max (priority ` set ex_store) = 8 \<and>
   (\<exists>new. feature_create_bulk ex_store [ex_item, ex_item2] ''append'' ''enhancement'' None =
            (Inr \<lparr>created = 2, priority_mode = ''append'', start_priority = 9,
                  res_source = ''enhancement'', res_batch_id = None\<rparr>, ex_store @ new) \<and>
          length new = 2 \<and>
          priority (new ! 0) = 9 \<and> priority (new ! 1) = 10 \<and>
          \<not> passes (new ! 0) \<and> \<not> passes (new ! 1) \<and>
          name (new ! 0) = ''Rate limit'' \<and> name (new ! 1) = ''Pagination'')"
proof -
  have k1: "d_category ex_item \<noteq> None" "d_name ex_item \<noteq> None" "d_description ex_item \<noteq> None"
    "d_steps ex_item \<noteq> None"
    by (simp_all add: ex_item_def)
  have k2: "d_category ex_item2 \<noteq> None" "d_name ex_item2 \<noteq> None"
    "d_description ex_item2 \<noteq> None" "d_steps ex_item2 \<noteq> None"
    by (simp_all add: ex_item2_def)
  have ne: "ex_store \<noteq> []" by (simp add: ex_store_def)
  have mx: "Max (priority ` set ex_store) = 8" by (simp add: ex_defs)
  have keys: "\<forall>d\<in>set [ex_item, ex_item2]. d_category d \<noteq> None \<and> d_name d \<noteq> None \<and>
                d_description d \<noteq> None \<and> d_steps d \<noteq> None"
    using k1 k2 by simp
  have mode: "''append'' \<noteq> ''prepend''" by simp
  have st: "(if ex_store = [] then 1 else Max (priority ` set ex_store) + 1) = 9"
    using ne mx by simp
  have nm: "d_name ex_item = Some ''Rate limit''" "d_name ex_item2 = Some ''Pagination''"
    by (simp_all add: ex_item_def ex_item2_def)
  from create_bulk_append[where ds = "[ex_item, ex_item2]" and mode = "''append''"
      and s = ex_store and src = "''enhancement''" and b = None] keys mode
  obtain new where new:
    "feature_create_bulk ex_store [ex_item, ex_item2] ''append'' ''enhancement'' None =
       (Inr \<lparr>created = length [ex_item, ex_item2], priority_mode = ''append'',
             start_priority = (if ex_store = [] then 1 else Max (priority ` set ex_store) + 1),
             res_source = ''enhancement'', res_batch_id = None\<rparr>, ex_store @ new)"
    "length new = length [ex_item, ex_item2]"
    "\<And>k. k < length [ex_item, ex_item2] \<Longrightarrow>
       priority (new ! k) = (if ex_store = [] then 1 else Max (priority ` set ex_store) + 1) + int k \<and>
       \<not> passes (new ! k) \<and>
       d_name ([ex_item, ex_item2] ! k) = Some (name (new ! k))"
    by blast
  from new(3)[of 0] new(3)[of 1] nm
  have rows: "priority (new ! 0) = 9" "priority (new ! 1) = 10"
    "\<not> passes (new ! 0)" "\<not> passes (new ! 1)"
    "name (new ! 0) = ''Rate limit''" "name (new ! 1) = ''Pagination''"
    by (simp_all add: st)
  from new(1) have r: "feature_create_bulk ex_store [ex_item, ex_item2] ''append'' ''enhancement'' None =
            (Inr \<lparr>created = 2, priority_mode = ''append'', start_priority = 9,
                  res_source = ''enhancement'', res_batch_id = None\<rparr>, ex_store @ new)"
    by (simp add: st)
  from new(2) have len: "length new = 2" by simp
  from r len rows have "\<exists>new. feature_create_bulk ex_store [ex_item, ex_item2] ''append'' ''enhancement'' None =
            (Inr \<lparr>created = 2, priority_mode = ''append'', start_priority = 9,
                  res_source = ''enhancement'', res_batch_id = None\<rparr>, ex_store @ new) \<and>
          length new = 2 \<and>
          priority (new ! 0) = 9 \<and> priority (new ! 1) = 10 \<and>
          \<not> passes (new ! 0) \<and> \<not> passes (new ! 1) \<and>
          name (new ! 0) = ''Rate limit'' \<and> name (new ! 1) = ''Pagination''"
    by blast
  with k1 k2 ne mx show ?thesis by blast
qed



text \<open>
  Claim C3. In prepend mode, when every item has the four keys and some feature is pending,
  the start priority is the smallest pending priority \<open>P\<close> minus the number \<open>K\<close> of items;
  the item at index \<open>k\<close> gets \<open>P - K + k\<close>, which is below the priority of every pending
  feature of the table. When no feature is pending, the call changes the table exactly as
  the same call in append mode does and returns the same result, apart from the mode
  echoed in the result.
\<close>

theorem create_bulk_prepend:
  "((\<forall>d\<in>set ds. d_category d \<noteq> None \<and> d_name d \<noteq> None \<and> d_description d \<noteq> None \<and>
                d_steps d \<noteq> None) \<and> (\<exists>f\<in>set s. \<not> passes f) \<longrightarrow>
    (\<exists>new. feature_create_bulk s ds ''prepend'' src b =
            (Inr \<lparr>created = length ds, priority_mode = ''prepend'',
                  start_priority = Min (priority ` {f \<in> set s. \<not> passes f}) - int (length ds),
                  res_source = src, res_batch_id = b\<rparr>,
             s @ new) \<and>
          length new = length ds \<and>
          (\<forall>k<length ds.
             priority (new ! k)
               = Min (priority ` {f \<in> set s. \<not> passes f}) - int (length ds) + int k \<and>
             (\<forall>g\<in>set s. \<not> passes g \<longrightarrow> priority (new ! k) < priority g) \<and>
             \<not> passes (new ! k) \<and>
             feature_id (new ! k) = next_id s + int k \<and>
             d_category (ds ! k) = Some (category (new ! k)) \<and>
             d_name (ds ! k) = Some (name (new ! k)) \<and>
             d_description (ds ! k) = Some (description (new ! k)) \<and>
             d_steps (ds ! k) = Some (steps (new ! k)) \<and>
             source (new ! k) = src \<and> batch_id (new ! k) = b))) \<and>
   ((\<forall>f\<in>set s. passes f) \<longrightarrow>
      feature_create_bulk s ds ''prepend'' src b =
        (map_sum id (\<lambda>r. r\<lparr>priority_mode := ''prepend''\<rparr>)
           (fst (feature_create_bulk s ds ''append'' src b)),
         snd (feature_create_bulk s ds ''append'' src b)))"
proof (intro conjI impI)
  assume a: "(\<forall>d\<in>set ds. d_category d \<noteq> None \<and> d_name d \<noteq> None \<and>
                  d_description d \<noteq> None \<and> d_steps d \<noteq> None) \<and> (\<exists>f\<in>set s. \<not> passes f)"
  let ?P = "Min (priority ` {f \<in> set s. \<not> passes f})"
  let ?st = "?P - int (length ds)"
  let ?new = "map (\<lambda>(k, d). db_feature ?st (next_id s) src b k (the (required_fields d)))
                (enumerate 0 ds)"
  from a have wf: "\<forall>d\<in>set ds. required_fields d \<noteq> None"
    by (simp add: required_fields_None)
  from a have pend: "\<not> (\<forall>f\<in>set s. passes f)" by blast
  have mp: "min_pending s = Some ?P"
    using pend min_pending_eq[of s] by auto
  have st: "calc_start_priority s ''prepend'' (length ds) = ?st"
    by (simp add: calc_start_priority_def mp)
  have r: "feature_create_bulk s ds ''prepend'' src b =
            (Inr \<lparr>created = length ds, priority_mode = ''prepend'', start_priority = ?st,
                  res_source = src, res_batch_id = b\<rparr>, s @ ?new)"
    using create_bulk_ok[OF wf, of s "''prepend''" src b] by (simp only: st)
  have len: "length ?new = length ds" by simp
  have rows: "\<forall>k<length ds.
             priority (?new ! k) = ?st + int k \<and>
             (\<forall>g\<in>set s. \<not> passes g \<longrightarrow> priority (?new ! k) < priority g) \<and>
             \<not> passes (?new ! k) \<and>
             feature_id (?new ! k) = next_id s + int k \<and>
             d_category (ds ! k) = Some (category (?new ! k)) \<and>
             d_name (ds ! k) = Some (name (?new ! k)) \<and>
             d_description (ds ! k) = Some (description (?new ! k)) \<and>
             d_steps (ds ! k) = Some (steps (?new ! k)) \<and>
             source (?new ! k) = src \<and> batch_id (?new ! k) = b"
  proof (intro allI impI)
    fix k assume k: "k < length ds"
    with wf have "required_fields (ds ! k) \<noteq> None" by simp
    note row = new_row_nth[OF k this, of ?st "next_id s" src b]
    have before: "\<forall>g\<in>set s. \<not> passes g \<longrightarrow> priority (?new ! k) < priority g"
    proof (intro ballI impI)
      fix g assume g: "g \<in> set s" "\<not> passes g"
      then have "?P \<le> priority g" by (intro Min_le) auto
      moreover have "priority (?new ! k) = ?st + int k" using row by blast
      ultimately show "priority (?new ! k) < priority g" using k by simp
    qed
    with row
    show "priority (?new ! k) = ?st + int k \<and>
             (\<forall>g\<in>set s. \<not> passes g \<longrightarrow> priority (?new ! k) < priority g) \<and>
             \<not> passes (?new ! k) \<and>
             feature_id (?new ! k) = next_id s + int k \<and>
             d_category (ds ! k) = Some (category (?new ! k)) \<and>
             d_name (ds ! k) = Some (name (?new ! k)) \<and>
             d_description (ds ! k) = Some (description (?new ! k)) \<and>
             d_steps (ds ! k) = Some (steps (?new ! k)) \<and>
             source (?new ! k) = src \<and> batch_id (?new ! k) = b"
      by blast
  qed
  from r len rows show "\<exists>new. feature_create_bulk s ds ''prepend'' src b =
            (Inr \<lparr>created = length ds, priority_mode = ''prepend'',
                  start_priority = ?st, res_source = src, res_batch_id = b\<rparr>,
             s @ new) \<and>
          length new = length ds \<and>
          (\<forall>k<length ds.
             priority (new ! k) = ?st + int k \<and>
             (\<forall>g\<in>set s. \<not> passes g \<longrightarrow> priority (new ! k) < priority g) \<and>
             \<not> passes (new ! k) \<and>
             feature_id (new ! k) = next_id s + int k \<and>
             d_category (ds ! k) = Some (category (new ! k)) \<and>
             d_name (ds ! k) = Some (name (new ! k)) \<and>
             d_description (ds ! k) = Some (description (new ! k)) \<and>
             d_steps (ds ! k) = Some (steps (new ! k)) \<and>
             source (new ! k) = src \<and> batch_id (new ! k) = b)"
    by (intro exI[of _ ?new] conjI)
next
  assume np: "\<forall>f\<in>set s. passes f"
  have mp: "min_pending s = None"
    using np min_pending_eq[of s] by auto
  have st: "calc_start_priority s ''prepend'' (length ds)
              = calc_start_priority s ''append'' (length ds)"
    by (simp add: calc_start_priority_def mp)
  show "feature_create_bulk s ds ''prepend'' src b =
        (map_sum id (\<lambda>r. r\<lparr>priority_mode := ''prepend''\<rparr>)
           (fst (feature_create_bulk s ds ''append'' src b)),
         snd (feature_create_bulk s ds ''append'' src b))"
    by (cases "add_features (calc_start_priority s ''append'' (length ds)) (next_id s) src b 0 ds []")
       (simp_all add: feature_create_bulk_def st Let_def)
qed

theorem create_bulk_prepend_witness:
  "d_category ex_item \<noteq> None \<and> d_name ex_item \<noteq> None \<and> d_description ex_item \<noteq> None \<and>
   d_steps ex_item \<noteq> None \<and> d_category ex_item2 \<noteq> None \<and> d_name ex_item2 \<noteq> None \<and>
   d_description ex_item2 \<noteq> None \<and> d_steps ex_item2 \<noteq> None \<and>
   ex_A \<in> set ex_store \<and> \<not> passes ex_A \<and> ex_B \<in> set ex_store \<and> \<not> passes ex_B \<and>
   Min (priority ` {f \<in> set ex_store. \<not> passes f}) = 2 \<and>
   (\<exists>new. feature_create_bulk ex_store [ex_item, ex_item2] ''prepend'' ''enhancement'' None =
            (Inr \<lparr>created = 2, priority_mode = ''prepend'', start_priority = 0,
                  res_source = ''enhancement'', res_batch_id = None\<rparr>, ex_store @ new) \<and>
          length new = 2 \<and>
          priority (new ! 0) = 0 \<and> priority (new ! 1) = 1 \<and>
          priority (new ! 0) < priority ex_A \<and> priority (new ! 0) < priority ex_B \<and>
          priority (new ! 1) < priority ex_A \<and> priority (new ! 1) < priority ex_B \<and>
          name (new ! 0) = ''Rate limit'' \<and> name (new ! 1) = ''Pagination'') \<and>
   passes ex_C \<and>
   feature_create_bulk [ex_C] [ex_item] ''prepend'' ''enhancement'' None =
     (map_sum id (\<lambda>r. r\<lparr>priority_mode := ''prepend''\<rparr>)
        (fst (feature_create_bulk [ex_C] [ex_item] ''append'' ''enhancement'' None)),
      snd (feature_create_bulk [ex_C] [ex_item] ''append'' ''enhancement'' None))"
proof -
  have k1: "d_category ex_item \<noteq> None" "d_name ex_item \<noteq> None" "d_description ex_item \<noteq> None"
    "d_steps ex_item \<noteq> None"
    by (simp_all add: ex_item_def)
  have k2: "d_category ex_item2 \<noteq> None" "d_name ex_item2 \<noteq> None"
    "d_description ex_item2 \<noteq> None" "d_steps ex_item2 \<noteq> None"
    by (simp_all add: ex_item2_def)
  have A: "ex_A \<in> set ex_store" "\<not> passes ex_A" and B: "ex_B \<in> set ex_store" "\<not> passes ex_B"
    by (simp_all add: ex_store_def ex_A_def ex_B_def)
  have C: "passes ex_C" by (simp add: ex_C_def)
  have "filter (\<lambda>f. \<not> passes f) ex_store = [ex_A, ex_B]"
    by (simp add: ex_store_def ex_A_def ex_B_def ex_C_def)
  then have "set (filter (\<lambda>f. \<not> passes f) ex_store) = {ex_A, ex_B}"
    by simp
  then have "{f \<in> set ex_store. \<not> passes f} = {ex_A, ex_B}"
    by (simp only: set_filter)
  then have pend: "priority ` {f \<in> set ex_store. \<not> passes f} = {5, 2}"
    by (simp add: ex_A_def ex_B_def)
  have mn: "Min (priority ` {f \<in> set ex_store. \<not> passes f}) = 2"
    unfolding pend by simp
  have keys: "\<forall>d\<in>set [ex_item, ex_item2]. d_category d \<noteq> None \<and> d_name d \<noteq> None \<and>
                d_description d \<noteq> None \<and> d_steps d \<noteq> None"
    using k1 k2 by simp
  have ex: "\<exists>f\<in>set ex_store. \<not> passes f" using B by blast
  have nm: "d_name ex_item = Some ''Rate limit''" "d_name ex_item2 = Some ''Pagination''"
    by (simp_all add: ex_item_def ex_item2_def)
  from create_bulk_prepend[where ds = "[ex_item, ex_item2]" and s = ex_store
      and src = "''enhancement''" and b = None] keys ex
  obtain new where new:
    "feature_create_bulk ex_store [ex_item, ex_item2] ''prepend'' ''enhancement'' None =
       (Inr \<lparr>created = length [ex_item, ex_item2], priority_mode = ''prepend'',
             start_priority = Min (priority ` {f \<in> set ex_store. \<not> passes f})
                                - int (length [ex_item, ex_item2]),
             res_source = ''enhancement'', res_batch_id = None\<rparr>, ex_store @ new)"
    "length new = length [ex_item, ex_item2]"
    "\<And>k. k < length [ex_item, ex_item2] \<Longrightarrow>
       priority (new ! k) = Min (priority ` {f \<in> set ex_store. \<not> passes f})
                              - int (length [ex_item, ex_item2]) + int k \<and>
       (\<forall>g\<in>set ex_store. \<not> passes g \<longrightarrow> priority (new ! k) < priority g) \<and>
       d_name ([ex_item, ex_item2] ! k) = Some (name (new ! k))"
    by blast
  from new(3)[of 0] new(3)[of 1] nm
  have rows: "priority (new ! 0) = 0" "priority (new ! 1) = 1"
    "name (new ! 0) = ''Rate limit''" "name (new ! 1) = ''Pagination''"
    by (simp_all add: mn)
  have l0: "0 < length [ex_item, ex_item2]" and l1: "1 < length [ex_item, ex_item2]"
    by simp_all
  have b0: "\<forall>g\<in>set ex_store. \<not> passes g \<longrightarrow> priority (new ! 0) < priority g"
    using new(3)[of 0] l0 by blast
  have b1: "\<forall>g\<in>set ex_store. \<not> passes g \<longrightarrow> priority (new ! 1) < priority g"
    using new(3)[of 1] l1 by blast
  from b0 b1 A B
  have before: "priority (new ! 0) < priority ex_A" "priority (new ! 0) < priority ex_B"
    "priority (new ! 1) < priority ex_A" "priority (new ! 1) < priority ex_B"
    by blast+
  from new(1) have r: "feature_create_bulk ex_store [ex_item, ex_item2] ''prepend'' ''enhancement'' None =
            (Inr \<lparr>created = 2, priority_mode = ''prepend'', start_priority = 0,
                  res_source = ''enhancement'', res_batch_id = None\<rparr>, ex_store @ new)"
    by (simp add: mn)
  from new(2) have len: "length new = 2" by simp
  from r len rows before
  have one: "\<exists>new. feature_create_bulk ex_store [ex_item, ex_item2] ''prepend'' ''enhancement'' None =
            (Inr \<lparr>created = 2, priority_mode = ''prepend'', start_priority = 0,
                  res_source = ''enhancement'', res_batch_id = None\<rparr>, ex_store @ new) \<and>
          length new = 2 \<and>
          priority (new ! 0) = 0 \<and> priority (new ! 1) = 1 \<and>
          priority (new ! 0) < priority ex_A \<and> priority (new ! 0) < priority ex_B \<and>
          priority (new ! 1) < priority ex_A \<and> priority (new ! 1) < priority ex_B \<and>
          name (new ! 0) = ''Rate limit'' \<and> name (new ! 1) = ''Pagination''"
    by blast
  have allC: "\<forall>f\<in>set [ex_C]. passes f" using C by simp
  from create_bulk_prepend[where ds = "[ex_item]" and s = "[ex_C]"
      and src = "''enhancement''" and b = None] allC
  have two: "feature_create_bulk [ex_C] [ex_item] ''prepend'' ''enhancement'' None =
     (map_sum id (\<lambda>r. r\<lparr>priority_mode := ''prepend''\<rparr>)
        (fst (feature_create_bulk [ex_C] [ex_item] ''append'' ''enhancement'' None)),
      snd (feature_create_bulk [ex_C] [ex_item] ''append'' ''enhancement'' None))"
    by blast
  from k1 k2 A B mn one C two show ?thesis by blast
qed


text \<open>
  Claim C4. When an item of the list lacks one of the four keys,
  \<^verbatim>\<open>feature_create_bulk\<close> returns the error naming the first index at which a key is
  missing, and the table is exactly as before the call: the items before that index, which
  have all their keys, are not created either. This holds in every mode.
\<close>

theorem create_bulk_atomic:
  "(j < length ds \<and>
    (d_category (ds ! j) = None \<or> d_name (ds ! j) = None \<or> d_description (ds ! j) = None \<or>
     d_steps (ds ! j) = None) \<and>
    (\<forall>k<j. d_category (ds ! k) \<noteq> None \<and> d_name (ds ! k) \<noteq> None \<and>
            d_description (ds ! k) \<noteq> None \<and> d_steps (ds ! k) \<noteq> None) \<longrightarrow>
      feature_create_bulk s ds mode src b = (Inl (MissingFields j), s)) \<and>
   ((\<exists>d\<in>set ds. d_category d = None \<or> d_name d = None \<or> d_description d = None \<or>
                d_steps d = None) \<longrightarrow>
      (\<exists>j<length ds.
         (d_category (ds ! j) = None \<or> d_name (ds ! j) = None \<or> d_description (ds ! j) = None \<or>
          d_steps (ds ! j) = None) \<and>
         feature_create_bulk s ds mode src b = (Inl (MissingFields j), s)))"
proof (intro conjI impI)
  assume "j < length ds \<and>
    (d_category (ds ! j) = None \<or> d_name (ds ! j) = None \<or> d_description (ds ! j) = None \<or>
     d_steps (ds ! j) = None) \<and>
    (\<forall>k<j. d_category (ds ! k) \<noteq> None \<and> d_name (ds ! k) \<noteq> None \<and>
            d_description (ds ! k) \<noteq> None \<and> d_steps (ds ! k) \<noteq> None)"
  then have "j < length ds" "required_fields (ds ! j) = None"
    "\<forall>k<j. required_fields (ds ! k) \<noteq> None"
    by (simp_all add: required_fields_None)
  then show "feature_create_bulk s ds mode src b = (Inl (MissingFields j), s)"
    by (rule create_bulk_bad)
next
  assume "\<exists>d\<in>set ds. d_category d = None \<or> d_name d = None \<or> d_description d = None \<or>
                d_steps d = None"
  then have "\<exists>d\<in>set ds. required_fields d = None"
    by (simp add: required_fields_None)
  from first_bad_index[of ds "\<lambda>d. required_fields d = None", OF this]
  obtain j where j: "j < length ds" "required_fields (ds ! j) = None"
    "\<forall>k<j. required_fields (ds ! k) \<noteq> None" by blast
  from create_bulk_bad[OF j] j(1,2)
  show "\<exists>j<length ds.
         (d_category (ds ! j) = None \<or> d_name (ds ! j) = None \<or> d_description (ds ! j) = None \<or>
          d_steps (ds ! j) = None) \<and>
         feature_create_bulk s ds mode src b = (Inl (MissingFields j), s)"
    by (auto simp: required_fields_None)
qed

theorem create_bulk_atomic_witness:
  "(1::nat) < length [ex_item, ex_bad_item, ex_bad_item] \<and>
   d_name ([ex_item, ex_bad_item, ex_bad_item] ! 1) = None \<and>
   d_category ([ex_item, ex_bad_item, ex_bad_item] ! 0) \<noteq> None \<and>
   d_name ([ex_item, ex_bad_item, ex_bad_item] ! 0) \<noteq> None \<and>
   d_description ([ex_item, ex_bad_item, ex_bad_item] ! 0) \<noteq> None \<and>
   d_steps ([ex_item, ex_bad_item, ex_bad_item] ! 0) \<noteq> None \<and>
   feature_create_bulk ex_store [ex_item, ex_bad_item, ex_bad_item] ''append'' ''enhancement'' None
     = (Inl (MissingFields 1), ex_store) \<and>
   ex_bad_item \<in> set [ex_item, ex_bad_item, ex_bad_item] \<and> d_name ex_bad_item = None \<and>
   (\<exists>j<length [ex_item, ex_bad_item, ex_bad_item].
      feature_create_bulk ex_store [ex_item, ex_bad_item, ex_bad_item] ''prepend'' ''enhancement'' None
        = (Inl (MissingFields j), ex_store))"
proof -
  let ?ds = "[ex_item, ex_bad_item, ex_bad_item]"
  have len: "(1::nat) < length ?ds" by simp
  have bad: "d_name (?ds ! 1) = None" by (simp add: ex_bad_item_def)
  have good: "d_category (?ds ! 0) \<noteq> None" "d_name (?ds ! 0) \<noteq> None"
    "d_description (?ds ! 0) \<noteq> None" "d_steps (?ds ! 0) \<noteq> None"
    by (simp_all add: ex_item_def)
  have before: "\<forall>k<(1::nat). d_category (?ds ! k) \<noteq> None \<and> d_name (?ds ! k) \<noteq> None \<and>
            d_description (?ds ! k) \<noteq> None \<and> d_steps (?ds ! k) \<noteq> None"
    using good by simp
  from create_bulk_atomic[where j = 1 and ds = ?ds and s = ex_store and mode = "''append''"
      and src = "''enhancement''" and b = None] len bad before
  have r: "feature_create_bulk ex_store ?ds ''append'' ''enhancement'' None
     = (Inl (MissingFields 1), ex_store)"
    by blast
  have m: "ex_bad_item \<in> set ?ds" by simp
  have n: "d_name ex_bad_item = None" by (simp add: ex_bad_item_def)
  from m n have "\<exists>d\<in>set ?ds. d_category d = None \<or> d_name d = None \<or>
      d_description d = None \<or> d_steps d = None"
    by blast
  with create_bulk_atomic[where ds = ?ds and s = ex_store and mode = "''prepend''"
      and src = "''enhancement''" and b = None]
  have e: "\<exists>j<length ?ds.
      feature_create_bulk ex_store ?ds ''prepend'' ''enhancement'' None
        = (Inl (MissingFields j), ex_store)"
    by blast
  from len bad good r m n e show ?thesis by blast
qed


text \<open>
  Claim C10. On the empty list \<^verbatim>\<open>feature_create_bulk\<close> succeeds in every mode: it
  reports zero created features and leaves the table unchanged. In append mode the start
  priority reported is one more than the largest priority of the table, or 1 for an empty
  table. The model \<^verbatim>\<open>BulkCreateInput\<close>, which asks for at least one item, takes no part in
  the call.
\<close>

theorem create_bulk_empty:
  "feature_create_bulk s [] ''append'' src b =
     (Inr \<lparr>created = 0, priority_mode = ''append'',
           start_priority = (if s = [] then 1 else Max (priority ` set s) + 1),
           res_source = src, res_batch_id = b\<rparr>, s) \<and>
   (\<exists>start. feature_create_bulk s [] mode src b =
     (Inr \<lparr>created = 0, priority_mode = mode, start_priority = start,
           res_source = src, res_batch_id = b\<rparr>, s))"
  by (simp add: feature_create_bulk_def calc_start_priority_def append_start_eq Let_def)


theorem create_bulk_empty_witness:
  "feature_create_bulk ex_store [] ''append'' ''initializer'' None =
     (Inr \<lparr>created = 0, priority_mode = ''append'', start_priority = 9,
           res_source = ''initializer'', res_batch_id = None\<rparr>, ex_store) \<and>
   feature_create_bulk [] [] ''append'' ''initializer'' None =
     (Inr \<lparr>created = 0, priority_mode = ''append'', start_priority = 1,
           res_source = ''initializer'', res_batch_id = None\<rparr>, [])"
proof -
  have st: "(if ex_store = [] then 1 else Max (priority ` set ex_store) + 1) = 9"
    by (simp add: ex_defs)
  from create_bulk_empty[where s = ex_store and src = "''initializer''" and b = None
      and mode = "''append''"]
  have one: "feature_create_bulk ex_store [] ''append'' ''initializer'' None =
     (Inr \<lparr>created = 0, priority_mode = ''append'', start_priority = 9,
           res_source = ''initializer'', res_batch_id = None\<rparr>, ex_store)"
    by (simp only: st)
  from create_bulk_empty[where s = "[]" and src = "''initializer''" and b = None
      and mode = "''append''"]
  have two: "feature_create_bulk [] [] ''append'' ''initializer'' None =
     (Inr \<lparr>created = 0, priority_mode = ''append'', start_priority = 1,
           res_source = ''initializer'', res_batch_id = None\<rparr>, [])"
    by simp
  from one two show ?thesis by blast
qed


subsection \<open>Sequences of tool calls\<close>

lemma next_id_eq: "next_id s = (if s = [] then 1 else Max (feature_id ` set s) + 1)"
proof (cases "s = []")
  case True
  then show ?thesis by (simp add: next_id_def first_def)
next
  case False
  with first_sort_key_uminus[of "map feature_id s"] show ?thesis
    by (simp add: next_id_def)
qed

lemma next_id_gt: "f \<in> set s \<Longrightarrow> feature_id f < next_id s"
proof -
  assume f: "f \<in> set s"
  then have "feature_id f \<le> Max (feature_id ` set s)" by (intro Max_ge) auto
  with f show ?thesis by (auto simp: next_id_eq)
qed

lemma add_features_Inr:
  "add_features start nid src b i ds added = Inr out \<Longrightarrow> \<forall>d\<in>set ds. required_fields d \<noteq> None"
  by (induction ds arbitrary: i added) (auto split: option.splits)

lemma feature_id_db_feature [simp]: "feature_id (db_feature st nid src b k v) = nid + int k"
  by (cases v) (simp add: db_feature_def)

lemma passes_db_feature [simp]: "\<not> passes (db_feature st nid src b k v)"
  by (cases v) (simp add: db_feature_def)

lemma new_rows_ids:
  "map feature_id (map (\<lambda>(k, d). db_feature st nid src b k (the (required_fields d)))
                    (enumerate 0 ds)) = map (\<lambda>k. nid + int k) [0..<length ds]"
proof -
  have "map feature_id (map (\<lambda>(k, d). db_feature st nid src b k (the (required_fields d)))
                    (enumerate 0 ds)) = map (\<lambda>p. nid + int (fst p)) (enumerate 0 ds)"
    by (simp add: case_prod_unfold comp_def)
  also have "\<dots> = map (\<lambda>k. nid + int k) [0..<length ds]"
    by (rule nth_equalityI) (simp_all add: nth_enumerate_eq)
  finally show ?thesis .
qed

text \<open>The table after a bulk creation: unchanged, or extended by rows with fresh identities.\<close>

lemma create_bulk_store:
  "snd (feature_create_bulk s ds mode src b) = s \<or>
   (\<exists>new. snd (feature_create_bulk s ds mode src b) = s @ new \<and>
          map feature_id new = map (\<lambda>k. next_id s + int k) [0..<length new])"
proof (cases "add_features (calc_start_priority s mode (length ds)) (next_id s) src b 0 ds []")
  case (Inl e)
  then show ?thesis by (simp add: feature_create_bulk_def Let_def)
next
  case (Inr out)
  from add_features_Inr[OF Inr] have wf: "\<forall>d\<in>set ds. required_fields d \<noteq> None" .
  let ?new = "map (\<lambda>(k, d). db_feature (calc_start_priority s mode (length ds)) (next_id s) src b k
                          (the (required_fields d))) (enumerate 0 ds)"
  have "snd (feature_create_bulk s ds mode src b) = s @ ?new"
    by (simp add: create_bulk_ok[OF wf])
  moreover have "map feature_id ?new = map (\<lambda>k. next_id s + int k) [0..<length ?new]"
    using new_rows_ids[of "calc_start_priority s mode (length ds)" "next_id s" src b ds] by simp
  ultimately show ?thesis by blast
qed

lemma mark_passing_store:
  "snd (feature_mark_passing s i) = s \<or>
   snd (feature_mark_passing s i) = update_row i (\<lambda>f. f\<lparr>passes := True\<rparr>) s"
  by (simp add: feature_mark_passing_def split: option.splits)

lemma skip_store:
  "snd (feature_skip s i) = s \<or>
   (\<exists>p. snd (feature_skip s i) = update_row i (\<lambda>f. f\<lparr>priority := p\<rparr>) s)"
  by (auto simp: feature_skip_def Let_def split: option.splits)

lemma ids_update_row:
  "(\<And>f. feature_id (upd f) = feature_id f) \<Longrightarrow> map feature_id (update_row i upd s) = map feature_id s"
  by (induction s) (auto simp: update_row_def)

text \<open>
  The invariant of a feature that passes: its identity is in the table, and every row with
  that identity passes.
\<close>

lemma passing_update_row:
  assumes "\<And>f. feature_id (upd f) = feature_id f" "\<And>f. passes f \<Longrightarrow> passes (upd f)"
    and "x \<in> feature_id ` set s" "\<forall>g\<in>set s. feature_id g = x \<longrightarrow> passes g"
  shows "x \<in> feature_id ` set (update_row i upd s) \<and>
         (\<forall>g\<in>set (update_row i upd s). feature_id g = x \<longrightarrow> passes g)"
proof -
  have "feature_id ` set (update_row i upd s) = feature_id ` set s"
    using ids_update_row[of upd i s, OF assms(1)] by (metis set_map)
  moreover have "\<forall>g\<in>set (update_row i upd s). feature_id g = x \<longrightarrow> passes g"
    using assms by (auto simp: update_row_def)
  ultimately show ?thesis using assms(3) by simp
qed

lemma call_tool_distinct:
  assumes "distinct (map feature_id s)"
  shows "distinct (map feature_id (call_tool c s))"
proof (cases c)
  case (MarkPassing i)
  with mark_passing_store[of s i] assms show ?thesis
    by (auto simp: ids_update_row)
next
  case (Skip i)
  with skip_store[of s i] assms show ?thesis
    by (auto simp: ids_update_row)
next
  case (CreateBulk ds mode src b)
  from create_bulk_store[of s ds mode src b]
  show ?thesis
  proof
    assume "snd (feature_create_bulk s ds mode src b) = s"
    with CreateBulk assms show ?thesis by simp
  next
    assume "\<exists>new. snd (feature_create_bulk s ds mode src b) = s @ new \<and>
          map feature_id new = map (\<lambda>k. next_id s + int k) [0..<length new]"
    then obtain new where new: "snd (feature_create_bulk s ds mode src b) = s @ new"
      "map feature_id new = map (\<lambda>k. next_id s + int k) [0..<length new]" by blast
    have d: "distinct (map feature_id new)"
      unfolding new(2) by (simp add: distinct_map inj_on_def)
    have "set (map feature_id s) \<inter> set (map feature_id new) = {}"
      unfolding new(2) using next_id_gt[of _ s] by fastforce
    with d assms new(1) CreateBulk show ?thesis by simp
  qed
qed (use assms in simp_all)

lemma call_tool_passing:
  assumes "x \<in> feature_id ` set s" "\<forall>g\<in>set s. feature_id g = x \<longrightarrow> passes g"
  shows "x \<in> feature_id ` set (call_tool c s) \<and>
         (\<forall>g\<in>set (call_tool c s). feature_id g = x \<longrightarrow> passes g)"
proof (cases c)
  case (MarkPassing i)
  from mark_passing_store[of s i] show ?thesis
  proof
    assume "snd (feature_mark_passing s i) = s"
    with MarkPassing assms show ?thesis by simp
  next
    assume "snd (feature_mark_passing s i) = update_row i (\<lambda>f. f\<lparr>passes := True\<rparr>) s"
    with MarkPassing passing_update_row[of "\<lambda>f. f\<lparr>passes := True\<rparr>" x s i] assms
    show ?thesis by simp
  qed
next
  case (Skip i)
  from skip_store[of s i] show ?thesis
  proof
    assume "snd (feature_skip s i) = s"
    with Skip assms show ?thesis by simp
  next
    assume "\<exists>p. snd (feature_skip s i) = update_row i (\<lambda>f. f\<lparr>priority := p\<rparr>) s"
    then obtain p where "snd (feature_skip s i) = update_row i (\<lambda>f. f\<lparr>priority := p\<rparr>) s"
      by blast
    with Skip passing_update_row[of "\<lambda>f. f\<lparr>priority := p\<rparr>" x s i] assms
    show ?thesis by simp
  qed
next
  case (CreateBulk ds mode src b)
  from create_bulk_store[of s ds mode src b]
  show ?thesis
  proof
    assume "snd (feature_create_bulk s ds mode src b) = s"
    with CreateBulk assms show ?thesis by simp
  next
    assume "\<exists>new. snd (feature_create_bulk s ds mode src b) = s @ new \<and>
          map feature_id new = map (\<lambda>k. next_id s + int k) [0..<length new]"
    then obtain new where new: "snd (feature_create_bulk s ds mode src b) = s @ new"
      "map feature_id new = map (\<lambda>k. next_id s + int k) [0..<length new]" by blast
    from assms(1) have "x < next_id s" using next_id_gt by auto
    moreover have "\<forall>g\<in>set new. next_id s \<le> feature_id g"
    proof
      fix g assume "g \<in> set new"
      then have "feature_id g \<in> set (map feature_id new)" by simp
      then show "next_id s \<le> feature_id g" unfolding new(2) by auto
    qed
    ultimately have "\<forall>g\<in>set new. feature_id g \<noteq> x" by fastforce
    with assms new(1) CreateBulk show ?thesis by auto
  qed
qed (use assms in simp_all)

lemma call_tools_invariant:
  assumes "distinct (map feature_id s)"
    "x \<in> feature_id ` set s" "\<forall>g\<in>set s. feature_id g = x \<longrightarrow> passes g"
  shows "distinct (map feature_id (call_tools cs s)) \<and>
         x \<in> feature_id ` set (call_tools cs s) \<and>
         (\<forall>g\<in>set (call_tools cs s). feature_id g = x \<longrightarrow> passes g)"
  using assms
proof (induction cs arbitrary: s)
  case Nil
  then show ?case by (simp add: call_tools_def)
next
  case (Cons c cs)
  have "call_tools (c # cs) s = call_tools cs (call_tool c s)"
    by (simp add: call_tools_def)
  moreover note Cons.IH[OF call_tool_distinct[OF Cons.prems(1)]
      conjunct1[OF call_tool_passing[OF Cons.prems(2,3)]]
      conjunct2[OF call_tool_passing[OF Cons.prems(2,3)]]]
  ultimately show ?case by simp
qed


text \<open>
  Claim C7. A feature that passes keeps passing under every sequence of calls of the nine
  tools: starting from a table with unique identities in which the feature \<open>f\<close> passes,
  the table after the calls still has unique identities, still has a row with the identity
  of \<open>f\<close>, and every row with that identity passes.
\<close>

theorem passing_is_terminal:
  "distinct (map feature_id s) \<and> f \<in> set s \<and> passes f \<longrightarrow>
     distinct (map feature_id (call_tools cs s)) \<and>
     (\<exists>g\<in>set (call_tools cs s). feature_id g = feature_id f) \<and>
     (\<forall>g\<in>set (call_tools cs s). feature_id g = feature_id f \<longrightarrow> passes g)"
proof (intro impI, elim conjE)
  assume d: "distinct (map feature_id s)" and f: "f \<in> set s" "passes f"
  have "inj_on feature_id (set s)" using d by (simp add: distinct_map)
  with f have all: "\<forall>g\<in>set s. feature_id g = feature_id f \<longrightarrow> passes g"
    by (auto dest: inj_onD)
  from f have "feature_id f \<in> feature_id ` set s" by simp
  from call_tools_invariant[OF d this all, of cs]
  show "distinct (map feature_id (call_tools cs s)) \<and>
     (\<exists>g\<in>set (call_tools cs s). feature_id g = feature_id f) \<and>
     (\<forall>g\<in>set (call_tools cs s). feature_id g = feature_id f \<longrightarrow> passes g)"
    by auto
qed

theorem passing_is_terminal_witness:
  "distinct (map feature_id ex_store) \<and> ex_C \<in> set ex_store \<and> passes ex_C \<and>
   distinct (map feature_id (call_tools ex_calls ex_store)) \<and>
   (\<exists>g\<in>set (call_tools ex_calls ex_store). feature_id g = feature_id ex_C \<and> passes g)"
proof -
  have d: "distinct (map feature_id ex_store)" by (simp add: ex_defs)
  have C: "ex_C \<in> set ex_store" "passes ex_C" by (simp_all add: ex_store_def ex_C_def)
  from passing_is_terminal[of ex_store ex_C ex_calls] d C
  have "distinct (map feature_id (call_tools ex_calls ex_store)) \<and>
     (\<exists>g\<in>set (call_tools ex_calls ex_store). feature_id g = feature_id ex_C) \<and>
     (\<forall>g\<in>set (call_tools ex_calls ex_store). feature_id g = feature_id ex_C \<longrightarrow> passes g)"
    by blast
  then have "distinct (map feature_id (call_tools ex_calls ex_store))"
    "\<exists>g\<in>set (call_tools ex_calls ex_store). feature_id g = feature_id ex_C \<and> passes g"
    by blast+
  with d C show ?thesis by blast
qed


subsection \<open>Search\<close>







lemma like_percent [simp]: "like ''%'' t"
  by (induction t) simp_all












end
